theory Spec2Isabelle
  imports Main "HOL-Library.Word"
begin

unbundle bit_operations_syntax

section \<open>The arithmetic types of the host language\<close>

text \<open>
  The library converts its literal values to the built-in arithmetic types by
  \<^verbatim>\<open>static_cast\<close> and reads their bounds from \<^verbatim>\<open>numeric_limits\<close>. Both belong to the
  language, not to the library, and are modelled here once, for both copies of the header:
  \<^item> an integral type is \<^verbatim>\<open>bool\<close> or a two's complement type given by its signedness and
    its width in bits (at most 64 for the standard types);
  \<^item> a floating-point type is a binary format given by the precision of its significand
    and its largest exponent; a finite value is a sign, a significand and an exponent,
    standing for \<open>\<plusminus> m * 2 ^ e\<close>;
  \<^item> \<^verbatim>\<open>unsigned long long\<close> has 64 bits, \<^verbatim>\<open>long double\<close> is the x87 extended format;
  \<^item> a conversion to a floating-point type rounds to the nearest value, ties to even;
  \<^item> a conversion whose behaviour the language leaves undefined yields
    \<open>UndefinedBehaviour\<close>: inside an immediate function the evaluation then is no constant
    expression, and no exception is thrown.
\<close>

datatype error = BadValuePreservingCast | UndefinedBehaviour | NoMatchingOperator

definition and_then :: "error + 'a \<Rightarrow> ('a \<Rightarrow> error + 'b) \<Rightarrow> error + 'b" where
  "and_then r f = (case r of Inl e \<Rightarrow> Inl e | Inr x \<Rightarrow> f x)"

type_synonym ull = "64 word"

datatype fmt = Fmt (prec: nat) (emax: int)

definition binary32 :: fmt where "binary32 = Fmt 24 127"
definition binary64 :: fmt where "binary64 = Fmt 53 1023"
definition long_double :: fmt where "long_double = Fmt 64 16383"

text \<open>The smallest and the largest exponent of the last place of a format.\<close>

definition qmin :: "fmt \<Rightarrow> int" where
  "qmin F = 2 - emax F - int (prec F)"

definition qmax :: "fmt \<Rightarrow> int" where
  "qmax F = emax F + 1 - int (prec F)"

datatype fl = Fl bool nat int | Infty bool | NaN

datatype ctype = Bool | Integral bool nat | Floating fmt

datatype cval = IntV int | FltV fl

definition floating_point :: "ctype \<Rightarrow> bool" where
  "floating_point T = (case T of Floating F \<Rightarrow> True | _ \<Rightarrow> False)"

definition integral :: "ctype \<Rightarrow> bool" where
  "integral T = (case T of Floating F \<Rightarrow> False | _ \<Rightarrow> True)"

definition arithmetic :: "ctype \<Rightarrow> bool" where
  "arithmetic T = (integral T \<or> floating_point T)"

subsection \<open>numeric\_limits\<close>

definition int_min :: "bool \<Rightarrow> nat \<Rightarrow> int" where
  "int_min sg b = (if sg then - (2 ^ (b - 1)) else 0)"

definition int_max :: "bool \<Rightarrow> nat \<Rightarrow> int" where
  "int_max sg b = (if sg then 2 ^ (b - 1) - 1 else 2 ^ b - 1)"

fun lowest :: "ctype \<Rightarrow> cval" where
  "lowest Bool = IntV 0"
| "lowest (Integral sg b) = IntV (int_min sg b)"
| "lowest (Floating F) = FltV (Fl True (2 ^ prec F - 1) (qmax F))"

fun highest :: "ctype \<Rightarrow> cval" where
  "highest Bool = IntV 1"
| "highest (Integral sg b) = IntV (int_max sg b)"
| "highest (Floating F) = FltV (Fl False (2 ^ prec F - 1) (qmax F))"

subsection \<open>Comparison and negation of floating-point values\<close>

definition scaled :: "bool \<Rightarrow> nat \<Rightarrow> int \<Rightarrow> int \<Rightarrow> int" where
  "scaled s m e e0 = (if s then - 1 else 1) * int m * 2 ^ nat (e - e0)"

fun fl_lt :: "fl \<Rightarrow> fl \<Rightarrow> bool" where
  "fl_lt (Fl s1 m1 e1) (Fl s2 m2 e2) =
     (scaled s1 m1 e1 (min e1 e2) < scaled s2 m2 e2 (min e1 e2))"
| "fl_lt (Fl s1 m1 e1) (Infty s2) = (\<not> s2)"
| "fl_lt (Infty s1) (Fl s2 m2 e2) = s1"
| "fl_lt (Infty s1) (Infty s2) = (s1 \<and> \<not> s2)"
| "fl_lt NaN y = False"
| "fl_lt x NaN = False"

fun fl_eq :: "fl \<Rightarrow> fl \<Rightarrow> bool" where
  "fl_eq (Fl s1 m1 e1) (Fl s2 m2 e2) =
     (scaled s1 m1 e1 (min e1 e2) = scaled s2 m2 e2 (min e1 e2))"
| "fl_eq (Infty s1) (Infty s2) = (s1 = s2)"
| "fl_eq x y = False"

definition fl_gt :: "fl \<Rightarrow> fl \<Rightarrow> bool" where
  "fl_gt x y = fl_lt y x"

definition fl_ne :: "fl \<Rightarrow> fl \<Rightarrow> bool" where
  "fl_ne x y = (\<not> fl_eq x y)"

fun fl_neg :: "fl \<Rightarrow> fl" where
  "fl_neg (Fl s m e) = Fl (\<not> s) m e"
| "fl_neg (Infty s) = Infty (\<not> s)"
| "fl_neg NaN = NaN"

fun cval_neg :: "cval \<Rightarrow> cval" where
  "cval_neg (IntV n) = IntV (- n)"
| "cval_neg (FltV x) = FltV (fl_neg x)"

subsection \<open>static\_cast\<close>

fun bitlen :: "nat \<Rightarrow> nat" where
  "bitlen n = (if n = 0 then 0 else Suc (bitlen (n div 2)))"

declare bitlen.simps [simp del]

definition round_mant :: "nat \<Rightarrow> nat \<Rightarrow> nat" where
  "round_mant m k =
     (let q = m div 2 ^ k; r = m mod 2 ^ k; h = 2 ^ (k - 1)
      in if h < r \<or> (r = h \<and> odd q) then q + 1 else q)"

text \<open>
  Conversion of the finite value \<open>\<plusminus> m * 2 ^ e\<close> to the format \<open>F\<close>: no result when the
  value is outside the range of \<open>F\<close>, the value itself when \<open>F\<close> holds it, and the nearest
  value of \<open>F\<close> otherwise.
\<close>

definition round_fl :: "fmt \<Rightarrow> bool \<Rightarrow> nat \<Rightarrow> int \<Rightarrow> fl option" where
  "round_fl F s m e =
     (if fl_lt (Fl False (2 ^ prec F - 1) (qmax F)) (Fl False m e) then None
      else let q = max (e + int (bitlen m) - int (prec F)) (qmin F)
           in if q \<le> e then Some (Fl s m e)
              else Some (Fl s (round_mant m (nat (q - e))) q))"

fun fl_trunc :: "fl \<Rightarrow> int option" where
  "fl_trunc (Fl s m e) =
     Some ((if s then - 1 else 1) * int (if 0 \<le> e then m * 2 ^ nat e else m div 2 ^ nat (- e)))"
| "fl_trunc (Infty s) = None"
| "fl_trunc NaN = None"

definition wrap :: "bool \<Rightarrow> nat \<Rightarrow> int \<Rightarrow> int" where
  "wrap sg b n =
     (let r = n mod 2 ^ b in if sg \<and> 2 ^ (b - 1) \<le> r then r - 2 ^ b else r)"

fun static_cast :: "ctype \<Rightarrow> cval \<Rightarrow> error + cval" where
  "static_cast Bool (IntV n) = Inr (IntV (if n = 0 then 0 else 1))"
| "static_cast Bool (FltV x) = Inr (IntV (if fl_ne x (Fl False 0 0) then 1 else 0))"
| "static_cast (Integral sg b) (IntV n) = Inr (IntV (wrap sg b n))"
| "static_cast (Integral sg b) (FltV x) =
     (case fl_trunc x of
        None \<Rightarrow> Inl UndefinedBehaviour
      | Some n \<Rightarrow> if int_min sg b \<le> n \<and> n \<le> int_max sg b then Inr (IntV n)
                  else Inl UndefinedBehaviour)"
| "static_cast (Floating F) (IntV n) =
     (case round_fl F (n < 0) (nat \<bar>n\<bar>) 0 of
        None \<Rightarrow> Inl UndefinedBehaviour
      | Some y \<Rightarrow> Inr (FltV y))"
| "static_cast (Floating F) (FltV (Fl s m e)) =
     (case round_fl F s m e of
        None \<Rightarrow> Inl UndefinedBehaviour
      | Some y \<Rightarrow> Inr (FltV y))"
| "static_cast (Floating F) (FltV (Infty s)) = Inr (FltV (Infty s))"
| "static_cast (Floating F) (FltV NaN) = Inr (FltV NaN)"

text \<open>Conversion to \<^verbatim>\<open>unsigned long long\<close> and to \<^verbatim>\<open>long double\<close>, with the result read.\<close>

fun to_ull :: "cval \<Rightarrow> error + ull" where
  "to_ull (IntV n) = Inr (word_of_int n)"
| "to_ull (FltV x) =
     (case fl_trunc x of
        None \<Rightarrow> Inl UndefinedBehaviour
      | Some n \<Rightarrow> if 0 \<le> n \<and> n < 2 ^ 64 then Inr (word_of_int n)
                  else Inl UndefinedBehaviour)"

fun to_ld :: "cval \<Rightarrow> error + fl" where
  "to_ld (IntV n) =
     (case round_fl long_double (n < 0) (nat \<bar>n\<bar>) 0 of
        None \<Rightarrow> Inl UndefinedBehaviour
      | Some y \<Rightarrow> Inr y)"
| "to_ld (FltV (Fl s m e)) =
     (case round_fl long_double s m e of
        None \<Rightarrow> Inl UndefinedBehaviour
      | Some y \<Rightarrow> Inr y)"
| "to_ld (FltV x) = Inr x"

definition of_ull :: "ull \<Rightarrow> cval" where
  "of_ull u = IntV (uint u)"

section \<open>The header gsi/val.h\<close>

record constinteger =
  M_value :: ull
  M_negative :: bool

record constreal =
  M_real :: fl

subsection \<open>constinteger\<close>

definition gsi_constinteger_neg :: "constinteger \<Rightarrow> constinteger" where
  "gsi_constinteger_neg v = \<lparr>M_value = M_value v, M_negative = \<not> M_negative v\<rparr>"

definition gsi_constinteger_pos :: "constinteger \<Rightarrow> constinteger" where
  "gsi_constinteger_pos v = v"

text \<open>
  The conversion operator \<^verbatim>\<open>operator _Up\<close>. In the integral branch the two bounds of
  the type are converted to \<^verbatim>\<open>unsigned long long\<close>, the first by the cast the source
  writes, the second by the usual arithmetic conversions of the comparison.
\<close>

definition gsi_constinteger_to :: "ctype \<Rightarrow> constinteger \<Rightarrow> error + cval" where
  "gsi_constinteger_to T c =
     (if floating_point T then
        and_then (static_cast T (of_ull (M_value c))) (\<lambda>f.
        and_then (to_ull f) (\<lambda>u.
        if u \<noteq> M_value c then Inl BadValuePreservingCast
        else and_then (static_cast T (of_ull (M_value c))) (\<lambda>r.
             Inr (if M_negative c then cval_neg r else r))))
      else
        and_then (to_ull (lowest T)) (\<lambda>lo.
        and_then (to_ull (highest T)) (\<lambda>hi.
        if (M_negative c \<and> M_value c > - lo) \<or> (\<not> M_negative c \<and> M_value c > hi)
        then Inl BadValuePreservingCast
        else static_cast T (of_ull (if M_negative c then - M_value c else M_value c)))))"

definition gsi_val_literal_int :: "ull \<Rightarrow> constinteger" where
  "gsi_val_literal_int x = \<lparr>M_value = x, M_negative = False\<rparr>"

text \<open>
  The two \<^verbatim>\<open>val\<close> overloads for integral arguments take a value \<open>x\<close> of an integral type;
  \<^verbatim>\<open>static_cast<unsigned long long>(x)\<close> is \<open>word_of_int x\<close>.
\<close>

definition gsi_val_unsigned :: "int \<Rightarrow> constinteger" where
  "gsi_val_unsigned x = \<lparr>M_value = word_of_int x, M_negative = False\<rparr>"

definition gsi_val_signed :: "int \<Rightarrow> constinteger" where
  "gsi_val_signed x =
     (if x \<ge> 0 then \<lparr>M_value = word_of_int x, M_negative = False\<rparr>
      else \<lparr>M_value = - word_of_int x, M_negative = True\<rparr>)"

subsection \<open>constreal\<close>

definition gsi_constreal_neg :: "constreal \<Rightarrow> constreal" where
  "gsi_constreal_neg v = \<lparr>M_real = fl_neg (M_real v)\<rparr>"

definition gsi_constreal_pos :: "constreal \<Rightarrow> constreal" where
  "gsi_constreal_pos v = v"

text \<open>
  The conversion operator \<^verbatim>\<open>operator _Up\<close>. The usual arithmetic conversions of the two
  range comparisons convert the bounds of the type to \<^verbatim>\<open>long double\<close>.
\<close>

definition gsi_constreal_to :: "ctype \<Rightarrow> constreal \<Rightarrow> error + cval" where
  "gsi_constreal_to T c =
     and_then (to_ld (highest T)) (\<lambda>hi.
     and_then (to_ld (lowest T)) (\<lambda>lo.
     if fl_gt (M_real c) hi \<or> fl_lt (M_real c) lo then Inl BadValuePreservingCast
     else and_then (static_cast T (FltV (M_real c))) (\<lambda>r.
          and_then (to_ld r) (\<lambda>back.
          if fl_ne back (M_real c) then Inl BadValuePreservingCast
          else static_cast T (FltV (M_real c))))))"

definition gsi_val_literal_real :: "fl \<Rightarrow> constreal" where
  "gsi_val_literal_real x = \<lparr>M_real = x\<rparr>"

definition gsi_val_real :: "fl \<Rightarrow> constreal" where
  "gsi_val_real x = \<lparr>M_real = x\<rparr>"

subsection \<open>\_ConstBinaryOps\<close>

datatype literal = IntLit constinteger | RealLit constreal

datatype binop = Add | Sub | Mul | Div | Mod | BitAnd | BitOr | BitXor

datatype cmpop = Eq | Ne | Le | Ge | Lt | Gt

text \<open>
  The constructors of \<^verbatim>\<open>_ConvertTo<_Tp>\<close>: the member is initialised from the literal
  through its conversion operator.
\<close>

fun gsi_ConvertTo :: "ctype \<Rightarrow> literal \<Rightarrow> error + cval" where
  "gsi_ConvertTo T (IntLit x) = gsi_constinteger_to T x"
| "gsi_ConvertTo T (RealLit x) = gsi_constreal_to T x"

text \<open>The eight instantiations of \<^verbatim>\<open>_GLIBCXX_CONVERTTO_OP(constraint, op)\<close>.\<close>

fun gsi_constraint :: "binop \<Rightarrow> ctype \<Rightarrow> bool" where
  "gsi_constraint Add T = arithmetic T"
| "gsi_constraint Sub T = arithmetic T"
| "gsi_constraint Mul T = arithmetic T"
| "gsi_constraint Div T = arithmetic T"
| "gsi_constraint Mod T = integral T"
| "gsi_constraint BitAnd T = integral T"
| "gsi_constraint BitOr T = integral T"
| "gsi_constraint BitXor T = integral T"

text \<open>
  The three operators the macro defines for \<open>op\<close>. The built-in operators of the type
  \<open>T\<close> belong to the language and are the parameter \<open>native\<close>. An operator whose
  constraint \<open>T\<close> does not satisfy does not take part in overload resolution:
  \<open>NoMatchingOperator\<close>.
\<close>

definition gsi_op_assign ::
  "(binop \<Rightarrow> cval \<Rightarrow> cval \<Rightarrow> error + cval) \<Rightarrow> ctype \<Rightarrow> binop \<Rightarrow> cval \<Rightarrow> literal \<Rightarrow> error + cval" where
  "gsi_op_assign native T op a b =
     (if gsi_constraint op T
      then and_then (gsi_ConvertTo T b) (\<lambda>v. native Add a v)
      else Inl NoMatchingOperator)"

definition gsi_op_left ::
  "(binop \<Rightarrow> cval \<Rightarrow> cval \<Rightarrow> error + cval) \<Rightarrow> ctype \<Rightarrow> binop \<Rightarrow> cval \<Rightarrow> literal \<Rightarrow> error + cval" where
  "gsi_op_left native T op a b =
     (if gsi_constraint op T
      then and_then (gsi_ConvertTo T b) (\<lambda>v. native op a v)
      else Inl NoMatchingOperator)"

definition gsi_op_right ::
  "(binop \<Rightarrow> cval \<Rightarrow> cval \<Rightarrow> error + cval) \<Rightarrow> ctype \<Rightarrow> binop \<Rightarrow> literal \<Rightarrow> cval \<Rightarrow> error + cval" where
  "gsi_op_right native T op a b =
     (if gsi_constraint op T
      then and_then (gsi_ConvertTo T a) (\<lambda>v. native op v b)
      else Inl NoMatchingOperator)"

text \<open>The two operators \<^verbatim>\<open>_GLIBCXX_CONVERTTO_CMP(op)\<close> defines.\<close>

definition gsi_cmp_left ::
  "(cmpop \<Rightarrow> cval \<Rightarrow> cval \<Rightarrow> bool) \<Rightarrow> ctype \<Rightarrow> cmpop \<Rightarrow> cval \<Rightarrow> literal \<Rightarrow> error + bool" where
  "gsi_cmp_left native T op a b =
     (if arithmetic T
      then and_then (gsi_ConvertTo T b) (\<lambda>v. Inr (native op a v))
      else Inl NoMatchingOperator)"

definition gsi_cmp_right ::
  "(cmpop \<Rightarrow> cval \<Rightarrow> cval \<Rightarrow> bool) \<Rightarrow> ctype \<Rightarrow> cmpop \<Rightarrow> literal \<Rightarrow> cval \<Rightarrow> error + bool" where
  "gsi_cmp_right native T op a b =
     (if arithmetic T
      then and_then (gsi_ConvertTo T a) (\<lambda>v. Inr (native op v b))
      else Inl NoMatchingOperator)"

section \<open>The header vir/val.h\<close>

subsection \<open>constinteger\<close>

definition vir_constinteger_neg :: "constinteger \<Rightarrow> constinteger" where
  "vir_constinteger_neg v = \<lparr>M_value = M_value v, M_negative = \<not> M_negative v\<rparr>"

definition vir_constinteger_pos :: "constinteger \<Rightarrow> constinteger" where
  "vir_constinteger_pos v = v"

definition vir_constinteger_to :: "ctype \<Rightarrow> constinteger \<Rightarrow> error + cval" where
  "vir_constinteger_to T c =
     (if floating_point T then
        and_then (static_cast T (of_ull (M_value c))) (\<lambda>f.
        and_then (to_ull f) (\<lambda>u.
        if u \<noteq> M_value c then Inl BadValuePreservingCast
        else and_then (static_cast T (of_ull (M_value c))) (\<lambda>r.
             Inr (if M_negative c then cval_neg r else r))))
      else
        and_then (to_ull (lowest T)) (\<lambda>lo.
        and_then (to_ull (highest T)) (\<lambda>hi.
        if (M_negative c \<and> M_value c > - lo) \<or> (\<not> M_negative c \<and> M_value c > hi)
        then Inl BadValuePreservingCast
        else static_cast T (of_ull (if M_negative c then - M_value c else M_value c)))))"

definition vir_val_literal_int :: "ull \<Rightarrow> constinteger" where
  "vir_val_literal_int x = \<lparr>M_value = x, M_negative = False\<rparr>"

definition vir_val_unsigned :: "int \<Rightarrow> constinteger" where
  "vir_val_unsigned x = \<lparr>M_value = word_of_int x, M_negative = False\<rparr>"

definition vir_val_signed :: "int \<Rightarrow> constinteger" where
  "vir_val_signed x =
     (if x \<ge> 0 then \<lparr>M_value = word_of_int x, M_negative = False\<rparr>
      else \<lparr>M_value = - word_of_int x, M_negative = True\<rparr>)"

subsection \<open>constreal\<close>

definition vir_constreal_neg :: "constreal \<Rightarrow> constreal" where
  "vir_constreal_neg v = \<lparr>M_real = fl_neg (M_real v)\<rparr>"

definition vir_constreal_pos :: "constreal \<Rightarrow> constreal" where
  "vir_constreal_pos v = v"

definition vir_constreal_to :: "ctype \<Rightarrow> constreal \<Rightarrow> error + cval" where
  "vir_constreal_to T c =
     and_then (to_ld (highest T)) (\<lambda>hi.
     and_then (to_ld (lowest T)) (\<lambda>lo.
     if fl_gt (M_real c) hi \<or> fl_lt (M_real c) lo then Inl BadValuePreservingCast
     else and_then (static_cast T (FltV (M_real c))) (\<lambda>r.
          and_then (to_ld r) (\<lambda>back.
          if fl_ne back (M_real c) then Inl BadValuePreservingCast
          else static_cast T (FltV (M_real c))))))"

definition vir_val_literal_real :: "fl \<Rightarrow> constreal" where
  "vir_val_literal_real x = \<lparr>M_real = x\<rparr>"

definition vir_val_real :: "fl \<Rightarrow> constreal" where
  "vir_val_real x = \<lparr>M_real = x\<rparr>"

subsection \<open>\_ConstBinaryOps\<close>

fun vir_ConvertTo :: "ctype \<Rightarrow> literal \<Rightarrow> error + cval" where
  "vir_ConvertTo T (IntLit x) = vir_constinteger_to T x"
| "vir_ConvertTo T (RealLit x) = vir_constreal_to T x"

fun vir_constraint :: "binop \<Rightarrow> ctype \<Rightarrow> bool" where
  "vir_constraint Add T = arithmetic T"
| "vir_constraint Sub T = arithmetic T"
| "vir_constraint Mul T = arithmetic T"
| "vir_constraint Div T = arithmetic T"
| "vir_constraint Mod T = integral T"
| "vir_constraint BitAnd T = integral T"
| "vir_constraint BitOr T = integral T"
| "vir_constraint BitXor T = integral T"

definition vir_op_assign ::
  "(binop \<Rightarrow> cval \<Rightarrow> cval \<Rightarrow> error + cval) \<Rightarrow> ctype \<Rightarrow> binop \<Rightarrow> cval \<Rightarrow> literal \<Rightarrow> error + cval" where
  "vir_op_assign native T op a b =
     (if vir_constraint op T
      then and_then (vir_ConvertTo T b) (\<lambda>v. native Add a v)
      else Inl NoMatchingOperator)"

definition vir_op_left ::
  "(binop \<Rightarrow> cval \<Rightarrow> cval \<Rightarrow> error + cval) \<Rightarrow> ctype \<Rightarrow> binop \<Rightarrow> cval \<Rightarrow> literal \<Rightarrow> error + cval" where
  "vir_op_left native T op a b =
     (if vir_constraint op T
      then and_then (vir_ConvertTo T b) (\<lambda>v. native op a v)
      else Inl NoMatchingOperator)"

definition vir_op_right ::
  "(binop \<Rightarrow> cval \<Rightarrow> cval \<Rightarrow> error + cval) \<Rightarrow> ctype \<Rightarrow> binop \<Rightarrow> literal \<Rightarrow> cval \<Rightarrow> error + cval" where
  "vir_op_right native T op a b =
     (if vir_constraint op T
      then and_then (vir_ConvertTo T a) (\<lambda>v. native op v b)
      else Inl NoMatchingOperator)"

definition vir_cmp_left ::
  "(cmpop \<Rightarrow> cval \<Rightarrow> cval \<Rightarrow> bool) \<Rightarrow> ctype \<Rightarrow> cmpop \<Rightarrow> cval \<Rightarrow> literal \<Rightarrow> error + bool" where
  "vir_cmp_left native T op a b =
     (if arithmetic T
      then and_then (vir_ConvertTo T b) (\<lambda>v. Inr (native op a v))
      else Inl NoMatchingOperator)"

definition vir_cmp_right ::
  "(cmpop \<Rightarrow> cval \<Rightarrow> cval \<Rightarrow> bool) \<Rightarrow> ctype \<Rightarrow> cmpop \<Rightarrow> literal \<Rightarrow> cval \<Rightarrow> error + bool" where
  "vir_cmp_right native T op a b =
     (if arithmetic T
      then and_then (vir_ConvertTo T a) (\<lambda>v. Inr (native op v b))
      else Inl NoMatchingOperator)"

section \<open>The built-in operators of int\<close>

text \<open>
  The built-in binary operators on two values of the 32-bit type \<^verbatim>\<open>int\<close>: division
  truncates, the remainder has the sign of the dividend, and a result outside the range of
  the type, a division by zero and operands that are not integers have no defined
  behaviour.
\<close>

definition tdiv :: "int \<Rightarrow> int \<Rightarrow> int" where
  "tdiv a b = sgn a * sgn b * (\<bar>a\<bar> div \<bar>b\<bar>)"

fun int_arith :: "binop \<Rightarrow> int \<Rightarrow> int \<Rightarrow> int option" where
  "int_arith Add a b = Some (a + b)"
| "int_arith Sub a b = Some (a - b)"
| "int_arith Mul a b = Some (a * b)"
| "int_arith Div a b = (if b = 0 then None else Some (tdiv a b))"
| "int_arith Mod a b =
     (if b = 0 \<or> tdiv a b > 2 ^ 31 - 1 then None else Some (a - tdiv a b * b))"
| "int_arith BitAnd a b = Some (a AND b)"
| "int_arith BitOr a b = Some (a OR b)"
| "int_arith BitXor a b = Some (a XOR b)"

fun int_native :: "binop \<Rightarrow> cval \<Rightarrow> cval \<Rightarrow> error + cval" where
  "int_native op (IntV a) (IntV b) =
     (case int_arith op a b of
        None \<Rightarrow> Inl UndefinedBehaviour
      | Some r \<Rightarrow> if - (2 ^ 31) \<le> r \<and> r \<le> 2 ^ 31 - 1 then Inr (IntV r)
                  else Inl UndefinedBehaviour)"
| "int_native op x y = Inl UndefinedBehaviour"

definition int32 :: ctype where
  "int32 = Integral True 32"

section \<open>The built-in comparisons\<close>

fun int_cmp :: "cmpop \<Rightarrow> int \<Rightarrow> int \<Rightarrow> bool" where
  "int_cmp Eq a b = (a = b)"
| "int_cmp Ne a b = (a \<noteq> b)"
| "int_cmp Le a b = (a \<le> b)"
| "int_cmp Ge a b = (a \<ge> b)"
| "int_cmp Lt a b = (a < b)"
| "int_cmp Gt a b = (a > b)"

fun fl_cmp :: "cmpop \<Rightarrow> fl \<Rightarrow> fl \<Rightarrow> bool" where
  "fl_cmp Eq a b = fl_eq a b"
| "fl_cmp Ne a b = fl_ne a b"
| "fl_cmp Le a b = (fl_lt a b \<or> fl_eq a b)"
| "fl_cmp Ge a b = (fl_gt a b \<or> fl_eq a b)"
| "fl_cmp Lt a b = fl_lt a b"
| "fl_cmp Gt a b = fl_gt a b"

text \<open>Both operands have the same type; operands of different kinds do not occur.\<close>

fun native_cmp :: "cmpop \<Rightarrow> cval \<Rightarrow> cval \<Rightarrow> bool" where
  "native_cmp op (IntV a) (IntV b) = int_cmp op a b"
| "native_cmp op (FltV a) (FltV b) = fl_cmp op a b"
| "native_cmp op x y = False"

section \<open>Types and their values\<close>

text \<open>
  The values of a floating-point type: the significand fits the precision and the exponent
  lies in the range of the format. A format is contained in another one when all its
  values are values of the other.
\<close>

fun in_format :: "fmt \<Rightarrow> fl \<Rightarrow> bool" where
  "in_format F (Fl s m e) = (m < 2 ^ prec F \<and> qmin F \<le> e \<and> e \<le> qmax F)"
| "in_format F (Infty s) = True"
| "in_format F NaN = True"

definition fmt_le :: "fmt \<Rightarrow> fmt \<Rightarrow> bool" where
  "fmt_le F G = (prec F \<le> prec G \<and> qmin G \<le> qmin F \<and> qmax F \<le> qmax G)"

text \<open>
  The types the model covers: \<^verbatim>\<open>bool\<close>, the integer types of 1 to 64 bits, and the
  floating-point formats contained in \<^verbatim>\<open>long double\<close>.
\<close>

fun wf_ctype :: "ctype \<Rightarrow> bool" where
  "wf_ctype Bool = True"
| "wf_ctype (Integral sg b) = (0 < b \<and> b \<le> 64)"
| "wf_ctype (Floating F) = (0 < prec F \<and> 0 < emax F \<and> fmt_le F long_double)"

fun has_type :: "ctype \<Rightarrow> cval \<Rightarrow> bool" where
  "has_type Bool (IntV n) = (n = 0 \<or> n = 1)"
| "has_type (Integral sg b) (IntV n) = (int_min sg b \<le> n \<and> n \<le> int_max sg b)"
| "has_type (Floating F) (FltV x) = in_format F x"
| "has_type T v = False"

definition zero_of :: "ctype \<Rightarrow> cval" where
  "zero_of T = (if floating_point T then FltV (Fl False 0 0) else IntV 0)"

fun finite_val :: "cval \<Rightarrow> bool" where
  "finite_val (IntV n) = True"
| "finite_val (FltV (Fl s m e)) = True"
| "finite_val (FltV x) = False"

section \<open>The call val(t)\<close>

text \<open>
  Overload resolution for \<^verbatim>\<open>val(t)\<close> with an argument \<open>t\<close> of the type \<open>T\<close>: the
  constrained overloads take the signed and the unsigned integral types (\<^verbatim>\<open>bool\<close> is an
  unsigned integral type), and an argument of a floating-point type is converted to
  \<^verbatim>\<open>long double\<close>. An integral type has no floating-point values.
\<close>

fun gsi_val :: "ctype \<Rightarrow> cval \<Rightarrow> error + literal" where
  "gsi_val (Integral True b) (IntV x) = Inr (IntLit (gsi_val_signed x))"
| "gsi_val (Integral False b) (IntV x) = Inr (IntLit (gsi_val_unsigned x))"
| "gsi_val Bool (IntV x) = Inr (IntLit (gsi_val_unsigned x))"
| "gsi_val (Floating F) x = and_then (to_ld x) (\<lambda>y. Inr (RealLit (gsi_val_real y)))"
| "gsi_val T x = Inl NoMatchingOperator"

fun vir_val :: "ctype \<Rightarrow> cval \<Rightarrow> error + literal" where
  "vir_val (Integral True b) (IntV x) = Inr (IntLit (vir_val_signed x))"
| "vir_val (Integral False b) (IntV x) = Inr (IntLit (vir_val_unsigned x))"
| "vir_val Bool (IntV x) = Inr (IntLit (vir_val_unsigned x))"
| "vir_val (Floating F) x = and_then (to_ld x) (\<lambda>y. Inr (RealLit (vir_val_real y)))"
| "vir_val T x = Inl NoMatchingOperator"

section \<open>Facts about the conversions of the language\<close>

lemma int_max_bounds:
  assumes "0 < b" "b \<le> 64"
  shows "0 \<le> int_max sg b" "int_max sg b < 2 ^ 64"
proof -
  have "(2::int) ^ b \<le> 2 ^ 64" using assms by (intro power_increasing) auto
  moreover have "(2::int) ^ (b - 1) \<le> 2 ^ 64" using assms by (intro power_increasing) auto
  moreover have "(1::int) \<le> 2 ^ b" "(1::int) \<le> 2 ^ (b - 1)" by simp_all
  ultimately show "0 \<le> int_max sg b" "int_max sg b < 2 ^ 64"
    by (auto simp: int_max_def)
qed

lemma int_min_bounds:
  assumes "0 < b" "b \<le> 64"
  shows "int_min sg b \<le> 0" "- (2 ^ 63) \<le> int_min sg b"
proof -
  have "(2::int) ^ (b - 1) \<le> 2 ^ 63" using assms by (intro power_increasing) auto
  then show "int_min sg b \<le> 0" "- (2 ^ 63) \<le> int_min sg b"
    by (auto simp: int_min_def)
qed

lemma uint_ull_of_int: "0 \<le> n \<Longrightarrow> n < 2 ^ 64 \<Longrightarrow> uint (word_of_int n :: ull) = n"
  by (simp add: uint_word_of_int take_bit_eq_mod)

lemma uint_neg_ull: "uint (- w :: ull) = (- uint w) mod 2 ^ 64"
  by (simp add: uint_word_arith_bintrs take_bit_eq_mod)

lemma pow2_split:
  assumes "0 < b"
  obtains p :: int where "p = 2 ^ (b - 1)" "2 ^ b = 2 * p" "0 < p"
proof
  show "(2::int) ^ (b - 1) = 2 ^ (b - 1)" by simp
  show "(2::int) ^ b = 2 * 2 ^ (b - 1)" using assms by (cases b) simp_all
  show "(0::int) < 2 ^ (b - 1)" by simp
qed

lemma wrap_nonneg:
  assumes "0 < b" "0 \<le> n" "n \<le> int_max sg b"
  shows "wrap sg b n = n"
proof -
  obtain p :: int where p: "p = 2 ^ (b - 1)" "2 ^ b = 2 * p" "0 < p"
    using pow2_split [OF assms(1)] by blast
  have mx: "int_max sg b = (if sg then p - 1 else 2 * p - 1)"
    by (simp add: int_max_def p)
  have "n < 2 * p" using assms(3) p(3) by (simp add: mx split: if_splits)
  then have m: "n mod 2 ^ b = n" using assms(2) by (simp add: p(2))
  have "n < p" if sg
    using assms(3) that unfolding mx by simp
  then have "\<not> (sg \<and> 2 ^ (b - 1) \<le> n)"
    unfolding p(1) by auto
  then show ?thesis
    unfolding wrap_def m Let_def by simp
qed

lemma wrap_neg:
  assumes "0 < b" "b \<le> 64" "0 \<le> m" "m \<le> - int_min sg b"
  shows "wrap sg b ((- m) mod 2 ^ 64) = - m"
proof -
  obtain p :: int where p: "p = 2 ^ (b - 1)" "2 ^ b = 2 * p" "0 < p"
    using pow2_split [OF assms(1)] by blast
  have "(2::int) ^ b dvd 2 ^ 64"
    by (rule le_imp_power_dvd) (rule assms(2))
  then have mm: "((- m) mod 2 ^ 64) mod 2 ^ b = (- m) mod (2 ^ b :: int)"
    by (rule mod_mod_cancel)
  show ?thesis
  proof (cases "m = 0")
    case True
    then show ?thesis by (simp add: wrap_def)
  next
    case False
    then have sg: sg and le: "m \<le> p"
      using assms(3,4) by (auto simp: int_min_def p(1) split: if_splits)
    have pos: "0 < m" using False assms(3) by simp
    have "(- m) mod (2 * p) = (2 * p - m) mod (2 * p)"
      by (metis add.commute mod_add_self2 uminus_add_conv_diff)
    also have "\<dots> = 2 * p - m"
      using pos le p(3) by (intro mod_pos_pos_trivial) auto
    finally have r: "(- m) mod 2 ^ b = 2 * p - m" by (simp add: p(2))
    have "2 ^ (b - 1) \<le> 2 * p - m" using le by (simp add: p(1))
    then show ?thesis
      unfolding wrap_def mm r Let_def using sg by (simp add: p(2))
  qed
qed

lemma bitlen_le: "bitlen n \<le> p \<longleftrightarrow> n < 2 ^ p"
proof (induction n arbitrary: p rule: bitlen.induct)
  case (1 n)
  show ?case
  proof (cases "n = 0")
    case True
    then show ?thesis by (simp add: bitlen.simps)
  next
    case False
    show ?thesis
    proof (cases p)
      case 0
      with False show ?thesis by (simp add: bitlen.simps)
    next
      case (Suc k)
      have "bitlen n \<le> Suc k \<longleftrightarrow> bitlen (n div 2) \<le> k"
        using False by (subst bitlen.simps) simp
      also have "\<dots> \<longleftrightarrow> n div 2 < 2 ^ k"
        using "1.IH" [OF False] .
      also have "\<dots> \<longleftrightarrow> n < 2 ^ Suc k"
        by (simp add: div_less_iff_less_mult mult.commute)
      finally show ?thesis using Suc by simp
    qed
  qed
qed

lemma not_above_max:
  assumes "m < 2 ^ prec F" "e \<le> qmax F"
  shows "\<not> fl_lt (Fl False (2 ^ prec F - 1) (qmax F)) (Fl False m e)"
proof -
  have "int m \<le> 2 ^ prec F - 1" using assms(1)
    by (metis of_nat_less_numeral_power_cancel_iff zle_diff1_eq)
  also have "\<dots> \<le> (2 ^ prec F - 1) * 2 ^ nat (qmax F - e)"
  proof -
    have "(0::int) \<le> 2 ^ prec F - 1" by simp
    moreover have "(1::int) \<le> 2 ^ nat (qmax F - e)" by simp
    ultimately show ?thesis
      using mult_left_mono [of 1 "2 ^ nat (qmax F - e)" "2 ^ prec F - 1 :: int"] by simp
  qed
  finally have "int m \<le> (2 ^ prec F - 1) * 2 ^ nat (qmax F - e)" .
  moreover have "int (2 ^ prec F - 1) = 2 ^ prec F - 1"
    by (simp add: of_nat_diff)
  moreover have "min (qmax F) e = e" using assms(2) by simp
  ultimately show ?thesis
    by (simp add: scaled_def)
qed

lemma round_fl_id:
  assumes "m < 2 ^ prec F" "qmin F \<le> e" "e \<le> qmax F"
  shows "round_fl F s m e = Some (Fl s m e)"
proof -
  have "bitlen m \<le> prec F" using assms(1) by (simp add: bitlen_le)
  then have "max (e + int (bitlen m) - int (prec F)) (qmin F) \<le> e"
    using assms(2) by simp
  then show ?thesis
    using not_above_max [OF assms(1,3)] by (simp add: round_fl_def Let_def)
qed

section \<open>Facts about the conversion operators\<close>

lemma conv_integer_to_Integral:
  assumes "0 < b" "b \<le> 64"
  shows "gsi_constinteger_to (Integral sg b) c =
    (if (M_negative c \<and> uint (M_value c) > - int_min sg b)
        \<or> (\<not> M_negative c \<and> uint (M_value c) > int_max sg b)
     then Inl BadValuePreservingCast
     else Inr (IntV (if M_negative c then - uint (M_value c) else uint (M_value c))))"
proof -
  have hi: "uint (word_of_int (int_max sg b) :: ull) = int_max sg b"
    using int_max_bounds [OF assms] by (intro uint_ull_of_int)
  have "- word_of_int (int_min sg b) = (word_of_int (- int_min sg b) :: ull)" by simp
  moreover have "uint (word_of_int (- int_min sg b) :: ull) = - int_min sg b"
    using int_min_bounds [OF assms, of sg] by (intro uint_ull_of_int) auto
  ultimately have lo: "uint (- word_of_int (int_min sg b) :: ull) = - int_min sg b"
    by (simp only:)
  have A: "(- word_of_int (int_min sg b) < M_value c) = (- int_min sg b < uint (M_value c))"
    unfolding word_less_def lo ..
  have B: "(word_of_int (int_max sg b) < M_value c) = (int_max sg b < uint (M_value c))"
    unfolding word_less_def hi ..
  have u0: "0 \<le> uint (M_value c)" by simp
  have un: "uint (- M_value c) = (- uint (M_value c)) mod 2 ^ 64"
    by (rule uint_neg_ull)
  have df: "gsi_constinteger_to (Integral sg b) c =
    (if (M_negative c \<and> - int_min sg b < uint (M_value c))
        \<or> (\<not> M_negative c \<and> int_max sg b < uint (M_value c))
     then Inl BadValuePreservingCast
     else Inr (IntV (wrap sg b (uint (if M_negative c then - M_value c else M_value c)))))"
    unfolding gsi_constinteger_to_def
    by (simp add: floating_point_def and_then_def of_ull_def A B del: word_of_int_minus)
  show ?thesis
  proof (cases "M_negative c")
    case True
    show ?thesis
      unfolding df using True wrap_neg [OF assms u0, of sg]
      by (simp add: un)
  next
    case False
    show ?thesis
      unfolding df using False wrap_nonneg [OF assms(1) u0, of sg]
      by simp
  qed
qed

lemma conv_integer_to_Bool:
  "gsi_constinteger_to Bool c =
    (if (M_negative c \<and> uint (M_value c) > 0) \<or> (\<not> M_negative c \<and> uint (M_value c) > 1)
     then Inl BadValuePreservingCast
     else Inr (IntV (if M_negative c then - uint (M_value c) else uint (M_value c))))"
proof -
  have A: "(0 < M_value c) = (0 < uint (M_value c))"
    by (simp add: word_less_def)
  have B: "(1 < M_value c) = (1 < uint (M_value c))"
    by (simp add: word_less_def)
  have C: "uint (M_value c) = 0 \<or> uint (M_value c) = 1" if "\<not> 1 < uint (M_value c)"
    using that uint_ge_0 [of "M_value c"] by linarith
  have D: "M_value c = 0" if "\<not> 0 < uint (M_value c)"
    using that uint_ge_0 [of "M_value c"] by (simp add: uint_0_iff [symmetric] del: uint_0_iff uint_ge_0)
  show ?thesis
  proof (cases "M_negative c")
    case True
    then show ?thesis
      unfolding gsi_constinteger_to_def
      using D by (auto simp add: floating_point_def and_then_def of_ull_def A B)
  next
    case False
    then show ?thesis
      unfolding gsi_constinteger_to_def
      using C by (auto simp add: floating_point_def and_then_def of_ull_def A B)
  qed
qed

lemma conv_integer_to_integral:
  assumes "wf_ctype T" "lowest T = IntV lo" "highest T = IntV hi"
  shows "gsi_constinteger_to T c =
    (if (M_negative c \<and> uint (M_value c) > - lo) \<or> (\<not> M_negative c \<and> uint (M_value c) > hi)
     then Inl BadValuePreservingCast
     else Inr (IntV (if M_negative c then - uint (M_value c) else uint (M_value c))))"
proof (cases T)
  case Bool
  then show ?thesis using assms conv_integer_to_Bool [of c] by auto
next
  case (Integral sg b)
  then show ?thesis using assms conv_integer_to_Integral [of b sg c] by auto
next
  case (Floating F)
  then show ?thesis using assms by simp
qed

lemma to_ld_finite:
  assumes "in_format F (Fl s m e)" "fmt_le F long_double"
  shows "to_ld (FltV (Fl s m e)) = Inr (Fl s m e)"
proof -
  have f: "m < 2 ^ prec F" "qmin F \<le> e" "e \<le> qmax F" using assms(1) by simp_all
  have "(2::nat) ^ prec F \<le> 2 ^ prec long_double"
    using assms(2) by (intro power_increasing) (simp_all add: fmt_le_def)
  then have "m < 2 ^ prec long_double" by (rule less_le_trans [OF f(1)])
  moreover have "qmin long_double \<le> e" "e \<le> qmax long_double"
    using assms(2) f(2,3) by (simp_all add: fmt_le_def)
  ultimately have "round_fl long_double s m e = Some (Fl s m e)"
    by (rule round_fl_id)
  then show ?thesis by simp
qed

lemma highest_in_format:
  assumes "0 < emax F"
  shows "in_format F (Fl s (2 ^ prec F - 1) (qmax F))"
  using assms by (simp add: qmin_def qmax_def)

lemma in_format_in_range:
  assumes "in_format F (Fl s m e)"
  shows "\<not> fl_gt (Fl s m e) (Fl False (2 ^ prec F - 1) (qmax F))"
    and "\<not> fl_lt (Fl s m e) (Fl True (2 ^ prec F - 1) (qmax F))"
proof -
  have m: "m < 2 ^ prec F" and e: "e \<le> qmax F" using assms by simp_all
  have mn: "min (qmax F) e = e" "min e (qmax F) = e" using e by simp_all
  have top: "\<not> scaled False (2 ^ prec F - 1) (qmax F) e < int m"
    using not_above_max [OF m e] by (simp add: mn scaled_def)
  have nn: "0 \<le> scaled False (2 ^ prec F - 1) (qmax F) e"
    by (simp add: scaled_def)
  have neg: "scaled True (2 ^ prec F - 1) (qmax F) e = - scaled False (2 ^ prec F - 1) (qmax F) e"
    by (simp add: scaled_def algebra_simps)
  show "\<not> fl_gt (Fl s m e) (Fl False (2 ^ prec F - 1) (qmax F))"
    using top nn by (cases s) (simp_all add: fl_gt_def mn scaled_def)
  show "\<not> fl_lt (Fl s m e) (Fl True (2 ^ prec F - 1) (qmax F))"
    using top nn unfolding fl_lt.simps mn neg by (cases s) (simp_all add: scaled_def)
qed

lemma fl_eq_finite_refl: "fl_eq (Fl s m e) (Fl s m e)"
  by simp

lemma conv_real_to_floating_id:
  assumes "wf_ctype (Floating F)" "in_format F (Fl s m e)"
  shows "gsi_constreal_to (Floating F) \<lparr>M_real = Fl s m e\<rparr> = Inr (FltV (Fl s m e))"
proof -
  have le: "fmt_le F long_double" and em: "0 < emax F" using assms(1) by simp_all
  have hi: "to_ld (highest (Floating F)) = Inr (Fl False (2 ^ prec F - 1) (qmax F))"
    using to_ld_finite [OF highest_in_format [OF em] le] by simp
  have lo: "to_ld (lowest (Floating F)) = Inr (Fl True (2 ^ prec F - 1) (qmax F))"
    using to_ld_finite [OF highest_in_format [OF em] le] by simp
  have cast: "static_cast (Floating F) (FltV (Fl s m e)) = Inr (FltV (Fl s m e))"
    using assms(2) by (simp add: round_fl_id)
  have bk: "to_ld (FltV (Fl s m e)) = Inr (Fl s m e)"
    by (rule to_ld_finite [OF assms(2) le])
  show ?thesis
    unfolding gsi_constreal_to_def
    by (simp only: constreal.select_convs hi lo cast bk and_then_def sum.case
        in_format_in_range [OF assms(2)] fl_ne_def fl_eq_finite_refl simp_thms if_False)
qed

lemma to_ld_int:
  assumes "\<bar>n\<bar> < 2 ^ 64"
  shows "to_ld (IntV n) = Inr (Fl (n < 0) (nat \<bar>n\<bar>) 0)"
proof -
  have "nat \<bar>n\<bar> < 2 ^ 64" using assms by (simp add: nat_less_iff)
  then have "round_fl long_double (n < 0) (nat \<bar>n\<bar>) 0 = Some (Fl (n < 0) (nat \<bar>n\<bar>) 0)"
    by (intro round_fl_id) (simp_all add: long_double_def qmin_def qmax_def)
  then show ?thesis by simp
qed

lemma to_ld_limits:
  assumes "wf_ctype T"
  shows "\<exists>hi lo. to_ld (highest T) = Inr hi \<and> to_ld (lowest T) = Inr lo"
proof (cases T)
  case Bool
  then show ?thesis by (simp add: to_ld_int del: to_ld.simps)
next
  case (Integral sg b)
  then have b: "0 < b" "b \<le> 64" using assms by simp_all
  have "\<bar>int_max sg b\<bar> < 2 ^ 64" "\<bar>int_min sg b\<bar> < 2 ^ 64"
    using int_max_bounds [OF b, of sg] int_min_bounds [OF b, of sg] by simp_all
  then show ?thesis using Integral by (simp add: to_ld_int del: to_ld.simps)
next
  case (Floating F)
  then have le: "fmt_le F long_double" and em: "0 < emax F" using assms by simp_all
  show ?thesis
    using to_ld_finite [OF highest_in_format [OF em] le] Floating
    by (simp del: to_ld.simps)
qed

lemma conv_real_NaN:
  assumes "wf_ctype T"
  shows "gsi_constreal_to T \<lparr>M_real = NaN\<rparr> =
    (case T of Integral sg b \<Rightarrow> Inl UndefinedBehaviour | _ \<Rightarrow> Inl BadValuePreservingCast)"
proof -
  obtain hi lo where l: "to_ld (highest T) = Inr hi" "to_ld (lowest T) = Inr lo"
    using to_ld_limits [OF assms] by blast
  have c: "\<not> fl_gt NaN hi" "\<not> fl_lt NaN lo"
    by (cases hi; simp add: fl_gt_def)+
  have one: "to_ld (IntV 1) = Inr (Fl False 1 0)"
    using to_ld_int [of 1] by simp
  have nan: "to_ld (FltV NaN) = Inr NaN" by simp
  have step: "gsi_constreal_to T \<lparr>M_real = NaN\<rparr> =
    and_then (static_cast T (FltV NaN)) (\<lambda>r.
    and_then (to_ld r) (\<lambda>b.
    if fl_ne b NaN then Inl BadValuePreservingCast else static_cast T (FltV NaN)))"
    unfolding gsi_constreal_to_def
    by (simp only: l c and_then_def sum.case if_False simp_thms constreal.select_convs)
  show ?thesis
    unfolding step
    by (cases T) (simp_all add: and_then_def fl_ne_def one del: to_ld.simps(1,2))
qed

lemma vir_constinteger_to_eq: "vir_constinteger_to = gsi_constinteger_to"
  by (intro ext) (simp only: vir_constinteger_to_def gsi_constinteger_to_def)

lemma vir_constreal_to_eq: "vir_constreal_to = gsi_constreal_to"
  by (intro ext) (simp only: vir_constreal_to_def gsi_constreal_to_def)

lemma vir_ConvertTo_eq: "vir_ConvertTo = gsi_ConvertTo"
proof (intro ext)
  fix T L
  show "vir_ConvertTo T L = gsi_ConvertTo T L"
    by (cases L) (simp_all add: vir_constinteger_to_eq vir_constreal_to_eq)
qed

lemma vir_constraint_eq: "vir_constraint = gsi_constraint"
proof (intro ext)
  fix op T
  show "vir_constraint op T = gsi_constraint op T"
    by (cases op) simp_all
qed

lemma vir_val_eq: "vir_val = gsi_val"
proof (intro ext)
  fix T t
  show "vir_val T t = gsi_val T t"
    by (induction T t rule: gsi_val.induct)
       (simp_all add: vir_val_signed_def gsi_val_signed_def vir_val_unsigned_def
          gsi_val_unsigned_def vir_val_real_def gsi_val_real_def)
qed

lemma arithmetic_all: "arithmetic T"
  by (cases T) (simp_all add: arithmetic_def integral_def floating_point_def)

lemma integral_int32: "integral int32"
  by (simp add: integral_def int32_def)

lemma conv_integer_to_int32:
  "gsi_constinteger_to int32 c =
    (if (M_negative c \<and> uint (M_value c) > 2 ^ 31) \<or> (\<not> M_negative c \<and> uint (M_value c) > 2 ^ 31 - 1)
     then Inl BadValuePreservingCast
     else Inr (IntV (if M_negative c then - uint (M_value c) else uint (M_value c))))"
  unfolding int32_def by (subst conv_integer_to_Integral) (simp_all add: int_min_def int_max_def)

lemma static_cast_literal_value:
  assumes "wf_ctype T" "lowest T = IntV lo" "highest T = IntV hi"
    and "\<not> ((M_negative c \<and> uint (M_value c) > - lo) \<or> (\<not> M_negative c \<and> uint (M_value c) > hi))"
  shows "static_cast T (of_ull (if M_negative c then - M_value c else M_value c))
    = Inr (IntV (if M_negative c then - uint (M_value c) else uint (M_value c)))"
proof (cases T)
  case Bool
  have "uint (M_value c) = 0 \<or> uint (M_value c) = 1" if "\<not> 1 < uint (M_value c)"
    using that uint_ge_0 [of "M_value c"] by linarith
  moreover have "M_value c = 0" if "\<not> 0 < uint (M_value c)"
    using that uint_ge_0 [of "M_value c"]
    by (simp add: uint_0_iff [symmetric] del: uint_0_iff uint_ge_0)
  ultimately show ?thesis
    using Bool assms(2-4) by (cases "M_negative c") (auto simp: of_ull_def)
next
  case (Integral sg b)
  then have b: "0 < b" "b \<le> 64" using assms(1) by simp_all
  have l: "lo = int_min sg b" "hi = int_max sg b" using Integral assms(2,3) by simp_all
  have u0: "0 \<le> uint (M_value c)" by simp
  show ?thesis
    using assms(4) wrap_neg [OF b u0, of sg] wrap_nonneg [OF b(1) u0, of sg]
    unfolding Integral l
    by (cases "M_negative c") (simp_all add: of_ull_def uint_neg_ull)
next
  case (Floating F)
  then show ?thesis using assms(2) by simp
qed

lemma uint_val_unsigned:
  assumes "0 \<le> x" "x < 2 ^ 64"
  shows "uint (M_value (gsi_val_unsigned x)) = x" "\<not> M_negative (gsi_val_unsigned x)"
  using assms by (simp_all add: gsi_val_unsigned_def uint_ull_of_int)

lemma uint_val_signed:
  assumes "- (2 ^ 63) \<le> x" "x < 2 ^ 63"
  shows "uint (M_value (gsi_val_signed x)) = \<bar>x\<bar>" "M_negative (gsi_val_signed x) = (x < 0)"
proof -
  have "uint (word_of_int (- x) :: ull) = - x" if "x < 0"
    using that assms by (intro uint_ull_of_int) auto
  moreover have "uint (word_of_int x :: ull) = x" if "0 \<le> x"
    using that assms by (intro uint_ull_of_int) auto
  ultimately show "uint (M_value (gsi_val_signed x)) = \<bar>x\<bar>"
    by (simp add: gsi_val_signed_def del: word_of_int_minus add: word_of_int_minus [symmetric])
  show "M_negative (gsi_val_signed x) = (x < 0)"
    by (auto simp add: gsi_val_signed_def)
qed

lemma to_ld_int32_limits:
  "to_ld (highest int32) = Inr (Fl False 2147483647 0)"
  "to_ld (lowest int32) = Inr (Fl True 2147483648 0)"
  using to_ld_int [of 2147483647] to_ld_int [of "- 2147483648"]
  by (simp_all add: int32_def int_max_def int_min_def del: to_ld.simps)

lemma conv_real_two_to_int32:
  "gsi_constreal_to int32 \<lparr>M_real = Fl False 2 0\<rparr> = Inr (IntV 2)"
proof -
  have bk: "to_ld (IntV 2) = Inr (Fl False 2 0)"
    using to_ld_int [of 2] by simp
  have c: "static_cast int32 (FltV (Fl False 2 0)) = Inr (IntV 2)"
    by (simp add: int32_def int_min_def int_max_def)
  show ?thesis
    unfolding gsi_constreal_to_def
    by (simp only: to_ld_int32_limits constreal.select_convs and_then_def sum.case c bk)
       (simp add: fl_gt_def fl_ne_def scaled_def)
qed

lemma to_ld_exact:
  assumes "m < 2 ^ 64" "- 16445 \<le> e" "e \<le> 16320"
  shows "to_ld (FltV (Fl s m e)) = Inr (Fl s m e)"
proof -
  have "round_fl long_double s m e = Some (Fl s m e)"
    using assms by (intro round_fl_id) (simp_all add: long_double_def qmin_def qmax_def)
  then show ?thesis by simp
qed

lemma to_ld_binary32_limits:
  "to_ld (highest (Floating binary32)) = Inr (Fl False 16777215 104)"
  "to_ld (lowest (Floating binary32)) = Inr (Fl True 16777215 104)"
  by (simp_all add: binary32_def qmax_def to_ld_exact del: to_ld.simps(1,2))

lemma to_ld_floating_limits:
  assumes "wf_ctype (Floating F)"
  shows "to_ld (highest (Floating F)) = Inr (Fl False (2 ^ prec F - 1) (qmax F))"
    and "to_ld (lowest (Floating F)) = Inr (Fl True (2 ^ prec F - 1) (qmax F))"
proof -
  have le: "fmt_le F long_double" and em: "0 < emax F" using assms by simp_all
  show "to_ld (highest (Floating F)) = Inr (Fl False (2 ^ prec F - 1) (qmax F))"
    using to_ld_finite [OF highest_in_format [OF em] le] by simp
  show "to_ld (lowest (Floating F)) = Inr (Fl True (2 ^ prec F - 1) (qmax F))"
    using to_ld_finite [OF highest_in_format [OF em] le] by simp
qed

lemma conv_real_infinity:
  assumes "wf_ctype (Floating F)"
  shows "gsi_constreal_to (Floating F) \<lparr>M_real = Infty s\<rparr> = Inl BadValuePreservingCast"
proof -
  have "fl_gt (Infty s) (Fl False (2 ^ prec F - 1) (qmax F))
      \<or> fl_lt (Infty s) (Fl True (2 ^ prec F - 1) (qmax F))"
    by (cases s) (simp_all add: fl_gt_def)
  then show ?thesis
    unfolding gsi_constreal_to_def
    by (simp only: to_ld_floating_limits [OF assms] constreal.select_convs and_then_def
        sum.case if_True)
qed

lemma scaled_int: "scaled (n < 0) (nat \<bar>n\<bar>) 0 0 = n"
  by (simp add: scaled_def)

lemma conv_real_integer_value:
  assumes "wf_ctype T" "has_type T (IntV n)"
  shows "gsi_constreal_to T \<lparr>M_real = Fl (n < 0) (nat \<bar>n\<bar>) 0\<rparr> = Inr (IntV n)"
proof -
  let ?v = "Fl (n < 0) (nat \<bar>n\<bar>) 0"
  have cmp: "fl_lt (Fl (a < 0) (nat \<bar>a\<bar>) 0) (Fl (b < 0) (nat \<bar>b\<bar>) 0) = (a < b)" for a b :: int
    by (simp only: fl_lt.simps min.idem scaled_int)
  have eq: "fl_eq ?v ?v" by simp
  have tr: "fl_trunc ?v = Some n" by auto
  have "\<exists>hi lo. to_ld (highest T) = Inr (Fl (hi < 0) (nat \<bar>hi\<bar>) 0)
      \<and> to_ld (lowest T) = Inr (Fl (lo < 0) (nat \<bar>lo\<bar>) 0)
      \<and> lo \<le> n \<and> n \<le> hi \<and> \<bar>n\<bar> < 2 ^ 64 \<and> static_cast T (FltV ?v) = Inr (IntV n)"
  proof (cases T)
    case Bool
    then have n: "n = 0 \<or> n = 1" using assms(2) by simp
    have "to_ld (IntV 1) = Inr (Fl ((1::int) < 0) (nat \<bar>1\<bar>) 0)"
      "to_ld (IntV 0) = Inr (Fl ((0::int) < 0) (nat \<bar>0\<bar>) 0)"
      by (rule to_ld_int, simp)+
    moreover have "static_cast Bool (FltV ?v) = Inr (IntV n)"
      using n by (auto simp: fl_ne_def scaled_def)
    ultimately show ?thesis using n Bool
      by (intro exI [of _ 1] exI [of _ 0]) (auto simp del: to_ld.simps)
  next
    case (Integral sg b)
    then have b: "0 < b" "b \<le> 64" using assms(1) by simp_all
    have r: "int_min sg b \<le> n" "n \<le> int_max sg b" using assms(2) Integral by simp_all
    have bd: "\<bar>int_max sg b\<bar> < 2 ^ 64" "\<bar>int_min sg b\<bar> < 2 ^ 64"
      using int_max_bounds [OF b, of sg] int_min_bounds [OF b, of sg] by simp_all
    have "\<bar>n\<bar> < 2 ^ 64"
      using r int_max_bounds [OF b, of sg] int_min_bounds [OF b, of sg] by simp
    moreover have "static_cast T (FltV ?v) = Inr (IntV n)"
      unfolding Integral static_cast.simps tr using r by simp
    ultimately show ?thesis
      using to_ld_int [OF bd(1)] to_ld_int [OF bd(2)] r Integral
      by (intro exI [of _ "int_max sg b"] exI [of _ "int_min sg b"]) (simp del: to_ld.simps)
  next
    case (Floating F)
    then show ?thesis using assms(2) by simp
  qed
  then obtain hi lo where l: "to_ld (highest T) = Inr (Fl (hi < 0) (nat \<bar>hi\<bar>) 0)"
      "to_ld (lowest T) = Inr (Fl (lo < 0) (nat \<bar>lo\<bar>) 0)"
    and r: "lo \<le> n" "n \<le> hi" and bd: "\<bar>n\<bar> < 2 ^ 64"
    and c: "static_cast T (FltV ?v) = Inr (IntV n)"
    by blast
  have g: "\<not> (fl_gt ?v (Fl (hi < 0) (nat \<bar>hi\<bar>) 0) \<or> fl_lt ?v (Fl (lo < 0) (nat \<bar>lo\<bar>) 0))"
    unfolding fl_gt_def cmp using r by simp
  show ?thesis
    unfolding gsi_constreal_to_def
    by (simp only: l c to_ld_int [OF bd] g constreal.select_convs and_then_def sum.case
        if_False fl_ne_def eq simp_thms)
qed

section \<open>Unary plus and minus\<close>

text \<open>
  C7. For every literal, integer or real, unary plus returns the literal itself, and
  negating twice returns the literal itself: for an integer literal both the magnitude and
  the sign flag are the original ones. The results being the same values, every conversion
  and every comparison with a typed value gives the same result for them.
\<close>

theorem gsi_unary_plus_and_double_negation:
  "gsi_constinteger_pos v = v
   \<and> gsi_constreal_pos w = w
   \<and> gsi_constinteger_neg (gsi_constinteger_neg v) = v
   \<and> M_value (gsi_constinteger_neg (gsi_constinteger_neg v)) = M_value v
   \<and> M_negative (gsi_constinteger_neg (gsi_constinteger_neg v)) = M_negative v
   \<and> gsi_constreal_neg (gsi_constreal_neg w) = w
   \<and> gsi_cmp_left cmp T op a (IntLit (gsi_constinteger_neg (gsi_constinteger_neg v)))
       = gsi_cmp_left cmp T op a (IntLit v)
   \<and> gsi_cmp_right cmp T op (IntLit (gsi_constinteger_neg (gsi_constinteger_neg v))) a
       = gsi_cmp_right cmp T op (IntLit v) a
   \<and> gsi_cmp_left cmp T op a (RealLit (gsi_constreal_neg (gsi_constreal_neg w)))
       = gsi_cmp_left cmp T op a (RealLit w)
   \<and> gsi_cmp_right cmp T op (RealLit (gsi_constreal_neg (gsi_constreal_neg w))) a
       = gsi_cmp_right cmp T op (RealLit w) a"
proof -
  have i: "gsi_constinteger_neg (gsi_constinteger_neg v) = v"
    by (simp add: gsi_constinteger_neg_def)
  have "fl_neg (fl_neg x) = x" for x
    by (cases x) simp_all
  then have r: "gsi_constreal_neg (gsi_constreal_neg w) = w"
    by (simp add: gsi_constreal_neg_def)
  show ?thesis
    by (simp only: i r gsi_constinteger_pos_def gsi_constreal_pos_def simp_thms)
qed

section \<open>The two copies of the header\<close>

text \<open>
  C9. The copy of the library in the namespace vir and the copy in the namespace gsi are
  the same functions: the literal suffixes, the \<^verbatim>\<open>val\<close> overloads, the unary operators,
  the checked conversions to every arithmetic type, and the binary, compound and
  comparison operators give the same result, or fail in the same way, on every input.
\<close>

theorem vir_equals_gsi:
  "vir_val_literal_int = gsi_val_literal_int
   \<and> vir_val_literal_real = gsi_val_literal_real
   \<and> vir_val_unsigned = gsi_val_unsigned
   \<and> vir_val_signed = gsi_val_signed
   \<and> vir_val_real = gsi_val_real
   \<and> vir_val = gsi_val
   \<and> vir_constinteger_neg = gsi_constinteger_neg
   \<and> vir_constinteger_pos = gsi_constinteger_pos
   \<and> vir_constreal_neg = gsi_constreal_neg
   \<and> vir_constreal_pos = gsi_constreal_pos
   \<and> vir_constinteger_to = gsi_constinteger_to
   \<and> vir_constreal_to = gsi_constreal_to
   \<and> vir_ConvertTo = gsi_ConvertTo
   \<and> vir_op_assign = gsi_op_assign
   \<and> vir_op_left = gsi_op_left
   \<and> vir_op_right = gsi_op_right
   \<and> vir_cmp_left = gsi_cmp_left
   \<and> vir_cmp_right = gsi_cmp_right"
proof -
  have "vir_val_literal_int = gsi_val_literal_int"
    by (intro ext) (simp only: vir_val_literal_int_def gsi_val_literal_int_def)
  moreover have "vir_val_literal_real = gsi_val_literal_real"
    by (intro ext) (simp only: vir_val_literal_real_def gsi_val_literal_real_def)
  moreover have "vir_val_unsigned = gsi_val_unsigned"
    by (intro ext) (simp only: vir_val_unsigned_def gsi_val_unsigned_def)
  moreover have "vir_val_signed = gsi_val_signed"
    by (intro ext) (simp only: vir_val_signed_def gsi_val_signed_def)
  moreover have "vir_val_real = gsi_val_real"
    by (intro ext) (simp only: vir_val_real_def gsi_val_real_def)
  moreover have "vir_constinteger_neg = gsi_constinteger_neg"
    by (intro ext) (simp only: vir_constinteger_neg_def gsi_constinteger_neg_def)
  moreover have "vir_constinteger_pos = gsi_constinteger_pos"
    by (intro ext) (simp only: vir_constinteger_pos_def gsi_constinteger_pos_def)
  moreover have "vir_constreal_neg = gsi_constreal_neg"
    by (intro ext) (simp only: vir_constreal_neg_def gsi_constreal_neg_def)
  moreover have "vir_constreal_pos = gsi_constreal_pos"
    by (intro ext) (simp only: vir_constreal_pos_def gsi_constreal_pos_def)
  moreover have "vir_op_assign = gsi_op_assign"
    by (intro ext)
       (simp only: vir_op_assign_def gsi_op_assign_def vir_ConvertTo_eq vir_constraint_eq)
  moreover have "vir_op_left = gsi_op_left"
    by (intro ext)
       (simp only: vir_op_left_def gsi_op_left_def vir_ConvertTo_eq vir_constraint_eq)
  moreover have "vir_op_right = gsi_op_right"
    by (intro ext)
       (simp only: vir_op_right_def gsi_op_right_def vir_ConvertTo_eq vir_constraint_eq)
  moreover have "vir_cmp_left = gsi_cmp_left"
    by (intro ext) (simp only: vir_cmp_left_def gsi_cmp_left_def vir_ConvertTo_eq)
  moreover have "vir_cmp_right = gsi_cmp_right"
    by (intro ext) (simp only: vir_cmp_right_def gsi_cmp_right_def vir_ConvertTo_eq)
  ultimately show ?thesis
    using vir_val_eq vir_constinteger_to_eq vir_constreal_to_eq vir_ConvertTo_eq
    by (simp only: simp_thms)
qed

section \<open>Compound assignment\<close>

text \<open>
  C1. The claim is that \<^verbatim>\<open>a OP= L\<close> updates \<open>a\<close> to \<^verbatim>\<open>a OP v\<close>. The macro body of the
  compound operators applies \<^verbatim>\<open>+=\<close> whatever \<open>OP\<close> is: with \<^verbatim>\<open>int a = 3\<close>, the
  statement \<^verbatim>\<open>a -= 2_val\<close> leaves 5 in \<open>a\<close>, where \<^verbatim>\<open>a - 2_val\<close> is 1; in both copies
  of the header.
\<close>

theorem compound_assignment_adds:
  "gsi_op_assign int_native int32 Sub (IntV 3) (IntLit (gsi_val_literal_int 2)) = Inr (IntV 5)
   \<and> gsi_op_left int_native int32 Sub (IntV 3) (IntLit (gsi_val_literal_int 2)) = Inr (IntV 1)
   \<and> vir_op_assign int_native int32 Sub (IntV 3) (IntLit (vir_val_literal_int 2)) = Inr (IntV 5)
   \<and> vir_op_left int_native int32 Sub (IntV 3) (IntLit (vir_val_literal_int 2)) = Inr (IntV 1)"
  by (simp add: gsi_op_assign_def gsi_op_left_def vir_op_assign_def vir_op_left_def
      vir_ConvertTo_eq vir_constraint_eq vir_val_literal_int_def gsi_val_literal_int_def
      conv_integer_to_int32 and_then_def arithmetic_all)

section \<open>Conversion of an integer literal to an integral type\<close>

text \<open>
  C4. For an integral type \<open>T\<close> with the bounds \<open>lo\<close> and \<open>hi\<close>, the conversion of an
  integer literal with the magnitude \<open>m\<close> fails with the value-not-preserved error exactly
  when the literal is negative and \<open>m > - lo\<close>, or it is not negative and \<open>m > hi\<close>;
  otherwise it returns the magnitude, negated in \<^verbatim>\<open>unsigned long long\<close> when the literal
  is negative, cast to \<open>T\<close>, which is the integer the literal stands for. The witness is
  the boundary of the 16-bit signed type: \<open>0x8000\<close> fails, \<open>-0x8000\<close> gives the minimum.
\<close>

theorem gsi_constinteger_to_integral_type:
  assumes "wf_ctype T" "lowest T = IntV lo" "highest T = IntV hi"
  shows "gsi_constinteger_to T c =
    (if (M_negative c \<and> uint (M_value c) > - lo) \<or> (\<not> M_negative c \<and> uint (M_value c) > hi)
     then Inl BadValuePreservingCast
     else static_cast T (of_ull (if M_negative c then - M_value c else M_value c)))
   \<and> (if (M_negative c \<and> uint (M_value c) > - lo) \<or> (\<not> M_negative c \<and> uint (M_value c) > hi)
      then gsi_constinteger_to T c = Inl BadValuePreservingCast
      else gsi_constinteger_to T c
        = Inr (IntV (if M_negative c then - uint (M_value c) else uint (M_value c))))"
  using conv_integer_to_integral [OF assms, of c] static_cast_literal_value [OF assms, of c]
  by (simp split: if_splits)

theorem gsi_constinteger_to_int16_boundary:
  "gsi_constinteger_to (Integral True 16) (gsi_val_literal_int 0x8000) = Inl BadValuePreservingCast
   \<and> gsi_constinteger_to (Integral True 16) (gsi_constinteger_neg (gsi_val_literal_int 0x8000))
       = Inr (lowest (Integral True 16))"
proof -
  have w: "wf_ctype (Integral True 16)" by simp
  have l: "lowest (Integral True 16) = IntV (- 32768)" by (simp add: int_min_def)
  have h: "highest (Integral True 16) = IntV 32767" by (simp add: int_max_def)
  show ?thesis
    using gsi_constinteger_to_integral_type [OF w l h, of "gsi_val_literal_int 0x8000", THEN conjunct2]
      gsi_constinteger_to_integral_type
        [OF w l h, of "gsi_constinteger_neg (gsi_val_literal_int 0x8000)", THEN conjunct2]
    by (simp add: gsi_val_literal_int_def gsi_constinteger_neg_def int_min_def)
qed

section \<open>Round trip\<close>

text \<open>
  C3, as amended. Let \<open>T\<close> be \<^verbatim>\<open>bool\<close>, an integer type of 1 to 64 bits or a
  floating-point type whose values are all values of \<^verbatim>\<open>long double\<close>, and \<open>t\<close> a value
  of \<open>T\<close>. When \<open>t\<close> is an integer or a finite floating-point value, \<^verbatim>\<open>val(t)\<close>
  converted back to \<open>T\<close> succeeds and yields \<open>t\<close>; this includes the minimum of every
  such signed integral type. When \<open>t\<close> is an infinity or a NaN, \<^verbatim>\<open>val(t)\<close> succeeds
  and the conversion back to \<open>T\<close> fails with the value-not-preserved error.
\<close>

theorem gsi_round_trip:
  assumes "wf_ctype T" "has_type T t"
  shows "and_then (gsi_val T t) (gsi_ConvertTo T)
    = (if finite_val t then Inr t else Inl BadValuePreservingCast)"
proof (cases T)
  case Bool
  then obtain x where t: "t = IntV x" and x: "x = 0 \<or> x = 1"
    using assms(2) by (cases t) auto
  have "0 \<le> x" "x < 2 ^ 64" using x by auto
  note u = uint_val_unsigned [OF this]
  show ?thesis
    using x by (auto simp add: Bool t and_then_def conv_integer_to_Bool u)
next
  case (Integral sg b)
  then have b: "0 < b" "b \<le> 64" using assms(1) by simp_all
  obtain x where t: "t = IntV x" and x: "int_min sg b \<le> x" "x \<le> int_max sg b"
    using assms(2) Integral by (cases t) auto
  show ?thesis
  proof (cases sg)
    case True
    have "int_max True b < 2 ^ 63"
    proof -
      have "(2::int) ^ (b - 1) \<le> 2 ^ 63" using b by (intro power_increasing) auto
      then show ?thesis by (simp add: int_max_def)
    qed
    then have "- (2 ^ 63) \<le> x" "x < 2 ^ 63"
      using x int_min_bounds [OF b, of sg] True by auto
    note u = uint_val_signed [OF this]
    show ?thesis
      using x True
      by (auto simp add: Integral t and_then_def conv_integer_to_Integral [OF b] u)
  next
    case False
    have "0 \<le> x" "x < 2 ^ 64"
      using x int_max_bounds [OF b, of sg] False by (auto simp: int_min_def)
    note u = uint_val_unsigned [OF this]
    show ?thesis
      using x False
      by (auto simp add: Integral t and_then_def conv_integer_to_Integral [OF b] u int_min_def)
  qed
next
  case (Floating F)
  then obtain y where t: "t = FltV y"
    using assms(2) by (cases t) auto
  have w: "wf_ctype (Floating F)" using assms(1) Floating by simp
  have le: "fmt_le F long_double" using w by simp
  show ?thesis
  proof (cases y)
    case (Fl s m e)
    have f: "in_format F (Fl s m e)" using assms(2) Floating t Fl by simp
    show ?thesis
      unfolding Floating t Fl
      by (simp add: to_ld_finite [OF f le] and_then_def gsi_val_real_def
          conv_real_to_floating_id [OF w f] del: to_ld.simps)
  next
    case (Infty s)
    show ?thesis
      unfolding Floating t Infty
      by (simp add: and_then_def gsi_val_real_def conv_real_infinity [OF w])
  next
    case NaN
    show ?thesis
      unfolding Floating t NaN
      using conv_real_NaN [OF w] by (simp add: and_then_def gsi_val_real_def)
  qed
qed

theorem gsi_round_trip_witness:
  "and_then (gsi_val (Integral True 16) (lowest (Integral True 16))) (gsi_ConvertTo (Integral True 16))
     = Inr (IntV (- 32768))
   \<and> and_then (gsi_val (Floating binary32) (FltV (Fl True 3 (- 1)))) (gsi_ConvertTo (Floating binary32))
     = Inr (FltV (Fl True 3 (- 1)))
   \<and> and_then (gsi_val (Floating binary32) (FltV (Infty True))) (gsi_ConvertTo (Floating binary32))
     = Inl BadValuePreservingCast
   \<and> and_then (gsi_val (Floating binary64) (FltV NaN)) (gsi_ConvertTo (Floating binary64))
     = Inl BadValuePreservingCast"
proof -
  have "wf_ctype (Integral True 16)" "has_type (Integral True 16) (IntV (- 32768))"
    by (simp_all add: int_min_def int_max_def)
  note i = gsi_round_trip [OF this]
  have w: "wf_ctype (Floating binary32)" "wf_ctype (Floating binary64)"
    by (simp_all add: binary32_def binary64_def long_double_def fmt_le_def qmin_def qmax_def)
  have h: "has_type (Floating binary32) (FltV (Fl True 3 (- 1)))"
    "has_type (Floating binary32) (FltV (Infty True))"
    "has_type (Floating binary64) (FltV NaN)"
    by (simp_all add: binary32_def qmin_def qmax_def)
  note f = gsi_round_trip [OF w(1) h(1)] gsi_round_trip [OF w(1) h(2)]
    gsi_round_trip [OF w(2) h(3)]
  show ?thesis using i f by (simp add: int_min_def)
qed

text \<open>
  C3 as stated fails: \<^verbatim>\<open>val\<close> accepts the \<^verbatim>\<open>float\<close> value infinity, and the conversion
  of the literal back to \<^verbatim>\<open>float\<close> throws, by the comparison with the maximum of the type.
\<close>

theorem val_infinity_conversion_fails:
  "wf_ctype (Floating binary32)
   \<and> has_type (Floating binary32) (FltV (Infty False))
   \<and> and_then (gsi_val (Floating binary32) (FltV (Infty False))) (gsi_ConvertTo (Floating binary32))
     = Inl BadValuePreservingCast"
proof -
  have w: "wf_ctype (Floating binary32)"
    by (simp add: binary32_def long_double_def fmt_le_def qmin_def qmax_def)
  obtain hi lo where l: "to_ld (highest (Floating binary32)) = Inr hi"
      "to_ld (lowest (Floating binary32)) = Inr lo"
    using to_ld_limits [OF w] by blast
  have hi: "hi = Fl False (2 ^ 24 - 1) 104"
    using l(1) to_ld_finite [of binary32 False "2 ^ 24 - 1" 104]
    by (simp add: binary32_def long_double_def fmt_le_def qmin_def qmax_def del: to_ld.simps)
  have "gsi_constreal_to (Floating binary32) \<lparr>M_real = Infty False\<rparr> = Inl BadValuePreservingCast"
    unfolding gsi_constreal_to_def
    by (simp only: l and_then_def sum.case constreal.select_convs) (simp add: hi fl_gt_def)
  then show ?thesis
    using w by (simp add: and_then_def gsi_val_real_def)
qed

section \<open>Negation of an integer literal\<close>

text \<open>
  C8. Negating an integer literal returns a literal with the same magnitude and the
  opposite sign flag, for every literal. The negation of the literal zero has the sign
  flag set, and its conversion to every arithmetic type succeeds and gives zero (for a
  floating-point type the negative zero, which compares equal to zero), so the literal
  compares equal to the zero of every type.
\<close>

theorem gsi_negated_zero:
  "M_value (gsi_constinteger_neg v) = M_value v
   \<and> M_negative (gsi_constinteger_neg v) = (\<not> M_negative v)
   \<and> M_negative (gsi_constinteger_neg (gsi_val_literal_int 0))
   \<and> (wf_ctype T \<longrightarrow>
        gsi_constinteger_to T (gsi_constinteger_neg (gsi_val_literal_int 0))
          = Inr (cval_neg (zero_of T))
        \<and> native_cmp Eq (cval_neg (zero_of T)) (zero_of T)
        \<and> gsi_cmp_left native_cmp T Eq (zero_of T)
            (IntLit (gsi_constinteger_neg (gsi_val_literal_int 0))) = Inr True
        \<and> gsi_cmp_right native_cmp T Eq
            (IntLit (gsi_constinteger_neg (gsi_val_literal_int 0))) (zero_of T) = Inr True)"
proof -
  let ?z = "gsi_constinteger_neg (gsi_val_literal_int 0)"
  have z: "?z = \<lparr>M_value = 0, M_negative = True\<rparr>"
    by (simp add: gsi_constinteger_neg_def gsi_val_literal_int_def)
  have conv: "gsi_constinteger_to T ?z = Inr (cval_neg (zero_of T))" if w: "wf_ctype T"
  proof (cases T)
    case Bool
    then show ?thesis
      by (simp add: z conv_integer_to_Bool zero_of_def floating_point_def)
  next
    case (Integral sg b)
    then have b: "0 < b" "b \<le> 64" using w by simp_all
    have "- int_min sg b \<ge> 0" using int_min_bounds [OF b, of sg] by simp
    then show ?thesis
      by (simp add: Integral z conv_integer_to_Integral [OF b] zero_of_def floating_point_def)
  next
    case (Floating F)
    then have p: "0 < prec F" "0 < emax F" using w by simp_all
    have "scaled False 0 0 k = 0" for k by (simp add: scaled_def)
    moreover have "0 \<le> scaled False m e k" for m e k by (simp add: scaled_def)
    ultimately have "\<not> fl_lt (Fl False (2 ^ prec F - 1) (qmax F)) (Fl False 0 0)"
      by (simp add: not_less)
    moreover have "max (0 + int (bitlen 0) - int (prec F)) (qmin F) \<le> 0"
      using p by (simp add: qmin_def bitlen.simps)
    ultimately have r: "round_fl F False 0 0 = Some (Fl False 0 0)"
      by (simp add: round_fl_def Let_def)
    show ?thesis
      by (simp add: Floating z gsi_constinteger_to_def floating_point_def of_ull_def r
          and_then_def zero_of_def)
  qed
  have cmp: "native_cmp Eq (cval_neg (zero_of T)) (zero_of T)"
    "native_cmp Eq (zero_of T) (cval_neg (zero_of T))"
    by (simp_all add: zero_of_def scaled_def)
  show ?thesis
    using conv cmp
    by (simp add: gsi_cmp_left_def gsi_cmp_right_def arithmetic_all and_then_def
        gsi_constinteger_neg_def gsi_val_literal_int_def)
qed

theorem gsi_negated_zero_witness:
  "wf_ctype (Integral False 8)
   \<and> gsi_constinteger_to (Integral False 8) (gsi_constinteger_neg (gsi_val_literal_int 0)) = Inr (IntV 0)
   \<and> wf_ctype (Floating binary64)
   \<and> gsi_constinteger_to (Floating binary64) (gsi_constinteger_neg (gsi_val_literal_int 0))
       = Inr (FltV (Fl True 0 0))"
proof -
  have u: "wf_ctype (Integral False 8)" by simp
  have d: "wf_ctype (Floating binary64)"
    by (simp add: binary64_def long_double_def fmt_le_def qmin_def qmax_def)
  show ?thesis
    using gsi_negated_zero [of _ "Integral False 8"] gsi_negated_zero [of _ "Floating binary64"] u d
    by (simp add: zero_of_def floating_point_def)
qed

section \<open>Modulo and the bitwise operators\<close>

text \<open>
  C2 as stated fails: the constraint of the macro is on the type of the typed operand,
  and \<^verbatim>\<open>_ConvertTo\<close> has a constructor from a real literal as well, so \<^verbatim>\<open>7 % 2.0_val\<close>
  with \<^verbatim>\<open>int\<close> operands is 1 and \<^verbatim>\<open>2.0_val % 7\<close> is 2.
\<close>

theorem modulo_with_real_literal:
  "gsi_op_left int_native int32 Mod (IntV 7) (RealLit (gsi_val_literal_real (Fl False 2 0)))
     = Inr (IntV 1)
   \<and> gsi_op_right int_native int32 Mod (RealLit (gsi_val_literal_real (Fl False 2 0))) (IntV 7)
     = Inr (IntV 2)"
  by (simp add: gsi_op_left_def gsi_op_right_def integral_int32 and_then_def
      gsi_val_literal_real_def conv_real_two_to_int32 tdiv_def)

text \<open>
  C2, as amended. Modulo and bitwise and, or, xor are provided only for a typed operand of
  an integral type: with a floating-point typed operand none of the three forms is
  defined, whatever the literal. With an integral typed operand the two binary forms are
  defined for an integer and for a real literal alike: the literal is converted to the
  type by the checked conversion, a failure of the conversion is the result, and otherwise
  the result is that of the built-in operator applied to the typed operand and the
  converted literal. A real literal whose value is an integer \<open>n\<close> of the type (\<^verbatim>\<open>bool\<close>
  or an integer type of 1 to 64 bits) converts to \<open>n\<close>: \<^verbatim>\<open>7 % 2.0_val\<close> is
  \<^verbatim>\<open>7 % 2\<close>, and \<^verbatim>\<open>7 % 0.0_val\<close> is \<^verbatim>\<open>7 % 0\<close>, which has no defined behaviour.
\<close>

theorem gsi_integral_only_operators:
  assumes "op \<in> {Mod, BitAnd, BitOr, BitXor}"
  shows "(floating_point T \<longrightarrow>
            gsi_op_left native T op a L = Inl NoMatchingOperator
          \<and> gsi_op_right native T op L a = Inl NoMatchingOperator
          \<and> gsi_op_assign native T op a L = Inl NoMatchingOperator)
       \<and> (integral T \<longrightarrow>
            gsi_op_left native T op a L = and_then (gsi_ConvertTo T L) (\<lambda>v. native op a v)
          \<and> gsi_op_right native T op L a = and_then (gsi_ConvertTo T L) (\<lambda>v. native op v a))
       \<and> (wf_ctype T \<and> has_type T (IntV n) \<longrightarrow>
            gsi_ConvertTo T (RealLit (gsi_val_literal_real (Fl (n < 0) (nat \<bar>n\<bar>) 0)))
              = Inr (IntV n)
          \<and> gsi_op_left native T op a (RealLit (gsi_val_literal_real (Fl (n < 0) (nat \<bar>n\<bar>) 0)))
              = native op a (IntV n)
          \<and> gsi_op_right native T op (RealLit (gsi_val_literal_real (Fl (n < 0) (nat \<bar>n\<bar>) 0))) a
              = native op (IntV n) a)"
proof -
  have c: "gsi_constraint op T = integral T"
    using assms by auto
  have nf: "\<not> integral T" if "floating_point T"
    using that by (cases T) (simp_all add: floating_point_def integral_def)
  have i: "integral T" if "has_type T (IntV n)"
    using that by (cases T) (simp_all add: integral_def)
  have r: "gsi_ConvertTo T (RealLit (gsi_val_literal_real (Fl (n < 0) (nat \<bar>n\<bar>) 0))) = Inr (IntV n)"
    if "wf_ctype T" "has_type T (IntV n)"
    using conv_real_integer_value [OF that] by (simp add: gsi_val_literal_real_def)
  show ?thesis
    using nf i r
    by (auto simp add: gsi_op_left_def gsi_op_right_def gsi_op_assign_def c and_then_def)
qed

theorem gsi_integral_only_operators_witness:
  "gsi_op_left int_native (Floating binary32) Mod (FltV (Fl False 7 0))
      (IntLit (gsi_val_literal_int 2)) = Inl NoMatchingOperator
   \<and> gsi_op_left int_native (Floating binary32) Mod (FltV (Fl False 7 0))
      (RealLit (gsi_val_literal_real (Fl False 2 0))) = Inl NoMatchingOperator
   \<and> gsi_ConvertTo int32 (RealLit (gsi_val_literal_real (Fl False 2 0))) = Inr (IntV 2)
   \<and> gsi_op_left int_native int32 Mod (IntV 7) (RealLit (gsi_val_literal_real (Fl False 2 0)))
     = Inr (IntV 1)
   \<and> gsi_op_right int_native int32 BitXor (RealLit (gsi_val_literal_real (Fl False 2 0))) (IntV 7)
     = Inr (IntV 5)
   \<and> gsi_op_left int_native int32 Mod (IntV 7) (RealLit (gsi_val_literal_real (Fl False 0 0)))
     = Inl UndefinedBehaviour
   \<and> gsi_op_left int_native int32 BitXor (IntV 7) (IntLit (gsi_val_literal_int 2))
     = and_then (gsi_ConvertTo int32 (IntLit (gsi_val_literal_int 2)))
         (\<lambda>v. int_native BitXor (IntV 7) v)"
proof -
  have m: "Mod \<in> {Mod, BitAnd, BitOr, BitXor}" and x: "BitXor \<in> {Mod, BitAnd, BitOr, BitXor}"
    by simp_all
  have f: "floating_point (Floating binary32)" by (simp add: floating_point_def)
  have w: "wf_ctype int32" "has_type int32 (IntV 2)" "has_type int32 (IntV 0)"
    by (simp_all add: int32_def int_min_def int_max_def)
  show ?thesis
    using gsi_integral_only_operators [OF m, of "Floating binary32" int_native]
      gsi_integral_only_operators [OF m, of int32 int_native _ _ 2]
      gsi_integral_only_operators [OF m, of int32 int_native _ _ 0]
      gsi_integral_only_operators [OF x, of int32 int_native _ _ 2]
      f integral_int32 w
    by (simp add: tdiv_def and_then_def)
qed

section \<open>Conversion of an integer literal to a floating-point type\<close>

text \<open>
  C6. The claim is that the conversion has two outcomes, the value and the
  value-not-preserved error. For the magnitude \<open>2 ^ 64 - 1\<close> and the types \<^verbatim>\<open>float\<close> and
  \<^verbatim>\<open>double\<close> the cast rounds to \<open>2 ^ 64\<close>, and the cast of that value back to
  \<^verbatim>\<open>unsigned long long\<close>, inside the comparison, has no defined behaviour: no exception
  is thrown. Below that, \<open>0x1000001\<close> fails with the error and \<open>0x1000002\<close> converts.
\<close>

theorem gsi_constinteger_to_floating_examples:
  "gsi_constinteger_to (Floating binary32) (gsi_val_literal_int 0xFFFFFFFFFFFFFFFF)
     = Inl UndefinedBehaviour
   \<and> gsi_constinteger_to (Floating binary64) (gsi_val_literal_int 0xFFFFFFFFFFFFFFFF)
     = Inl UndefinedBehaviour
   \<and> gsi_constinteger_to (Floating binary32) (gsi_val_literal_int 0x1000001)
     = Inl BadValuePreservingCast
   \<and> gsi_constinteger_to (Floating binary32) (gsi_val_literal_int 0x1000002)
     = Inr (FltV (Fl False 0x800001 1))"
  by (simp add: gsi_constinteger_to_def gsi_val_literal_int_def floating_point_def and_then_def
      of_ull_def round_fl_def bitlen.simps binary32_def binary64_def qmin_def qmax_def
      scaled_def round_mant_def Let_def)

section \<open>Conversion of a real literal\<close>

text \<open>
  C5. The claim is that the conversion of a real literal either fails with the
  value-not-preserved error or returns the cast value. For the value NaN and an integer
  type, here \<^verbatim>\<open>unsigned char\<close>, both range comparisons are false and the cast of NaN to
  the integer type has no defined behaviour: no exception is thrown. The two boundary
  cases of the claim hold: the \<^verbatim>\<open>long double\<close> nearest to 0.1 does not convert to
  \<^verbatim>\<open>float\<close>, and 0.5 does.
\<close>

theorem gsi_constreal_to_examples:
  "gsi_constreal_to (Integral False 8) (gsi_val_real NaN) = Inl UndefinedBehaviour
   \<and> gsi_constreal_to (Floating binary32)
        (gsi_val_literal_real (Fl False 0xCCCCCCCCCCCCCCCD (- 67))) = Inl BadValuePreservingCast
   \<and> gsi_constreal_to (Floating binary32) (gsi_val_literal_real (Fl False 1 (- 1)))
     = Inr (FltV (Fl False 1 (- 1)))"
proof -
  have a: "gsi_constreal_to (Integral False 8) (gsi_val_real NaN) = Inl UndefinedBehaviour"
    using conv_real_NaN [of "Integral False 8"] by (simp add: gsi_val_real_def)
  have c1: "static_cast (Floating binary32) (FltV (Fl False 0xCCCCCCCCCCCCCCCD (- 67)))
    = Inr (FltV (Fl False 13421773 (- 27)))"
    by (simp add: round_fl_def bitlen.simps binary32_def qmin_def qmax_def scaled_def
        round_mant_def Let_def)
  have b: "gsi_constreal_to (Floating binary32)
        (gsi_val_literal_real (Fl False 0xCCCCCCCCCCCCCCCD (- 67))) = Inl BadValuePreservingCast"
    unfolding gsi_constreal_to_def gsi_val_literal_real_def
    by (simp only: to_ld_binary32_limits constreal.select_convs and_then_def sum.case c1)
       (simp add: to_ld_exact fl_gt_def fl_ne_def scaled_def del: to_ld.simps(1,2))
  have c2: "static_cast (Floating binary32) (FltV (Fl False 1 (- 1))) = Inr (FltV (Fl False 1 (- 1)))"
    by (simp add: round_fl_def bitlen.simps binary32_def qmin_def qmax_def scaled_def
        round_mant_def Let_def)
  have c: "gsi_constreal_to (Floating binary32) (gsi_val_literal_real (Fl False 1 (- 1)))
     = Inr (FltV (Fl False 1 (- 1)))"
    unfolding gsi_constreal_to_def gsi_val_literal_real_def
    by (simp only: to_ld_binary32_limits constreal.select_convs and_then_def sum.case c2)
       (simp add: to_ld_exact fl_gt_def fl_ne_def scaled_def del: to_ld.simps(1,2))
  show ?thesis using a b c by simp
qed

text \<open>
  C10. \<^verbatim>\<open>val\<close> accepts NaN. The claim is that the conversion of that literal to every
  arithmetic type fails with the value-not-preserved error. It does for \<^verbatim>\<open>bool\<close> and for
  every floating-point type, \<^verbatim>\<open>long double\<close> included; for every integer type the cast of
  NaN has no defined behaviour, and no exception is thrown.
\<close>

theorem gsi_constreal_to_NaN:
  assumes "wf_ctype T"
  shows "M_real (gsi_val_real NaN) = NaN
    \<and> gsi_constreal_to T (gsi_val_real NaN) =
      (case T of Integral sg b \<Rightarrow> Inl UndefinedBehaviour | _ \<Rightarrow> Inl BadValuePreservingCast)"
  using conv_real_NaN [OF assms] by (simp add: gsi_val_real_def)

theorem gsi_constreal_to_NaN_witness:
  "gsi_constreal_to int32 (gsi_val_real NaN) = Inl UndefinedBehaviour
   \<and> gsi_constreal_to (Floating long_double) (gsi_val_real NaN) = Inl BadValuePreservingCast
   \<and> gsi_constreal_to (Floating binary32) (gsi_val_real NaN) = Inl BadValuePreservingCast
   \<and> gsi_constreal_to Bool (gsi_val_real NaN) = Inl BadValuePreservingCast"
proof -
  have w: "wf_ctype int32" "wf_ctype (Floating long_double)" "wf_ctype (Floating binary32)"
    "wf_ctype Bool"
    by (simp_all add: int32_def long_double_def binary32_def fmt_le_def qmin_def qmax_def)
  show ?thesis
    using w(1,2,3,4) [THEN gsi_constreal_to_NaN] by (simp add: int32_def)
qed

end
